theory Spec2Isabelle
  imports Main
begin

section \<open>The type stub writer of pyright (typeStubWriter.ts)\<close>

text \<open>
  The writer walks an analysed Python parse tree and appends, line by line, a declaration-only
  rendering of it to a text buffer. This theory embeds the class \<open>TypeStubWriter\<close>: its mutable
  fields become a record that every method takes and returns, its methods become functions, and
  the callbacks handed to \<open>_emitSuite\<close> and \<open>_increaseIndent\<close> become function arguments.
\<close>

subsection \<open>Parse nodes\<close>

text \<open>
  Of the parser's node types only the fields the writer reads are kept. A name node is the
  string of its name token; an optional field (\<open>T | undefined\<close>) is an \<open>option\<close>. Expression
  nodes are opaque to the writer (it only hands them to the expression printer), so their type
  is the parameter \<open>'e\<close>.
\<close>

datatype ArgumentCategory = Simple | UnpackedList | UnpackedDictionary

datatype ParameterCategory = SimpleParameter | VarArgList | VarArgDictionary

record 'e ArgumentNode =
  argumentCategory :: ArgumentCategory
  argName :: "string option"
  valueExpression :: 'e

record 'e ParameterNode =
  category :: ParameterCategory
  paramName :: "string option"
  typeAnnotation :: "'e option"
  defaultValue :: "'e option"

record 'e DecoratorNode =
  leftExpression :: 'e
  decoratorArguments :: "'e ArgumentNode list option"

record ModuleNameNode =
  leadingDots :: nat
  nameParts :: "string list"

record ImportAsNode =
  importModule :: ModuleNameNode
  importAlias :: "string option"

record ImportFromAsNode =
  importFromName :: string
  importFromAlias :: "string option"

text \<open>
  The statement-level nodes. \<open>ClassNode decorators name arguments suite\<close>,
  \<open>FunctionNode decorators isAsync name parameters returnTypeAnnotation suite\<close>,
  \<open>ImportNode list\<close> and \<open>ImportFromNode module isWildcardImport imports\<close> are the four kinds
  the writer overrides a visit method for; the children of the two import nodes are names only,
  so the walk has nothing to do below them. \<open>ModuleNode\<close> is the root of a parse tree. Every
  other kind of node (statement lists, \<open>if\<close>, \<open>while\<close>, \<open>try\<close>, assignments, expressions, ...) is an
  \<open>OtherNode\<close> holding the child nodes the base walker goes on to; the writer never looks at
  anything else of it.
\<close>

datatype 'e ParseNode =
    ModuleNode "'e ParseNode list"
  | ClassNode "'e DecoratorNode list" string "'e ArgumentNode list" "'e ParseNode list"
  | FunctionNode "'e DecoratorNode list" bool string "'e ParameterNode list" "'e option"
      "'e ParseNode list"
  | ImportNode "ImportAsNode list"
  | ImportFromNode ModuleNameNode bool "ImportFromAsNode list"
  | OtherNode "'e ParseNode list"

text \<open>
  The collaborators the writer calls but does not define: \<open>SymbolUtils.isPrivateName\<close>,
  \<open>SymbolUtils.isProtectedName\<close> and \<open>ParseTreeUtils.printExpression\<close>. They are pure functions of
  their argument and are taken as parameters. The expression printer is taken to return a text
  for every expression; a printer that throws ends the run before anything is written.
\<close>

record 'e Collaborators =
  isPrivateName :: "string \<Rightarrow> bool"
  isProtectedName :: "string \<Rightarrow> bool"
  printExpression :: "'e \<Rightarrow> string"


subsection \<open>The writer's state\<close>

text \<open>
  The private fields of \<open>TypeStubWriter\<close>. The counters are JavaScript numbers that are only
  ever incremented and decremented by one; they are integers here.
\<close>

record TypeStubWriter =
  indentAmount :: int
  typeStubText :: string
  lineEnd :: string
  tab :: string
  classNestCount :: int
  functionNestCount :: int
  emittedSuite :: bool

text \<open>The field initialisers: the state of a newly constructed writer.\<close>

definition newTypeStubWriter :: TypeStubWriter where
  "newTypeStubWriter =
     \<lparr> indentAmount = 0, typeStubText = [], lineEnd = [CHR 0x0A], tab = ''    '',
       classNestCount = 0, functionNestCount = 0, emittedSuite = False \<rparr>"

subsection \<open>Rendering of nodes to text\<close>

text \<open>\<open>Array.prototype.join\<close> on an array of strings.\<close>

fun join :: "string \<Rightarrow> string list \<Rightarrow> string" where
  "join sep [] = []"
| "join sep [x] = x"
| "join sep (x # y # ys) = x @ sep @ join sep (y # ys)"

text \<open>The loop of \<open>_printModuleName\<close> that appends one dot per leading dot.\<close>

primrec appendDots :: "nat \<Rightarrow> string \<Rightarrow> string" where
  "appendDots 0 line = line"
| "appendDots (Suc n) line = appendDots n (line @ ''.'')"

definition printModuleName :: "ModuleNameNode \<Rightarrow> string" where
  "printModuleName node = appendDots (leadingDots node) [] @ join ''.'' (nameParts node)"

definition printParameter :: "'e Collaborators \<Rightarrow> 'e ParameterNode \<Rightarrow> string" where
  "printParameter E node =
     (let line = [];
          line = (if category node = VarArgList then line @ ''*''
                  else if category node = VarArgDictionary then line @ ''**''
                  else line);
          line = (case paramName node of Some n \<Rightarrow> line @ n | None \<Rightarrow> line);
          line = (case typeAnnotation node of
                    Some t \<Rightarrow> line @ '': '' @ printExpression E t
                  | None \<Rightarrow> line);
          line = (case defaultValue node of
                    Some d \<Rightarrow>
                      (case typeAnnotation node of
                         Some t \<Rightarrow> line @ '' = ...''
                       | None \<Rightarrow> line @ ''=...'')
                  | None \<Rightarrow> line)
      in line)"

definition printArgument :: "'e Collaborators \<Rightarrow> 'e ArgumentNode \<Rightarrow> string" where
  "printArgument E node =
     (let line = [];
          line = (if argumentCategory node = UnpackedList then line @ ''*''
                  else if argumentCategory node = UnpackedDictionary then line @ ''**''
                  else line);
          line = (case argName node of Some n \<Rightarrow> line @ n @ ''='' | None \<Rightarrow> line)
      in line @ printExpression E (valueExpression node))"

text \<open>
  The arrow function that \<open>visitClass\<close> maps over the class arguments. It is written out in
  \<open>visitClass\<close> and does not call \<open>_printArgument\<close>.
\<close>

definition printClassArgument :: "'e Collaborators \<Rightarrow> 'e ArgumentNode \<Rightarrow> string" where
  "printClassArgument E arg =
     (let argString = [];
          argString = (case argName arg of Some n \<Rightarrow> n @ ''='' | None \<Rightarrow> argString)
      in argString @ printExpression E (valueExpression arg))"

subsection \<open>Emission\<close>

text \<open>The loop of \<open>_emitLine\<close> that appends the tab sequence \<open>_indentAmount\<close> times.\<close>

primrec appendTabs :: "nat \<Rightarrow> string \<Rightarrow> string \<Rightarrow> string" where
  "appendTabs 0 t text = text"
| "appendTabs (Suc n) t text = appendTabs n t (text @ t)"

definition emitLine :: "string \<Rightarrow> TypeStubWriter \<Rightarrow> TypeStubWriter" where
  "emitLine line w =
     (let text = appendTabs (nat (indentAmount w)) (tab w) (typeStubText w)
      in w\<lparr>typeStubText := text @ line @ lineEnd w\<rparr>)"

definition increaseIndent ::
  "(TypeStubWriter \<Rightarrow> TypeStubWriter) \<Rightarrow> TypeStubWriter \<Rightarrow> TypeStubWriter" where
  "increaseIndent callback w =
     (let w = w\<lparr>indentAmount := indentAmount w + 1\<rparr>;
          w = callback w
      in w\<lparr>indentAmount := indentAmount w - 1\<rparr>)"

definition emitSuite ::
  "(TypeStubWriter \<Rightarrow> TypeStubWriter) \<Rightarrow> TypeStubWriter \<Rightarrow> TypeStubWriter" where
  "emitSuite callback w =
     increaseIndent
       (\<lambda>w. let prevEmittedSuite = emittedSuite w;
                w = w\<lparr>emittedSuite := False\<rparr>;
                w = callback w;
                w = (if \<not> emittedSuite w then emitLine ''...'' w else w)
            in w\<lparr>emittedSuite := prevEmittedSuite\<rparr>)
       w"

definition decoratorLine :: "'e Collaborators \<Rightarrow> 'e DecoratorNode \<Rightarrow> string" where
  "decoratorLine E decorator =
     (let line = ''@'' @ printExpression E (leftExpression decorator)
      in case decoratorArguments decorator of
           Some args \<Rightarrow> line @ ''('' @ join '', '' (map (printArgument E) args) @ '')''
         | None \<Rightarrow> line)"

fun emitDecorators ::
  "'e Collaborators \<Rightarrow> 'e DecoratorNode list \<Rightarrow> TypeStubWriter \<Rightarrow> TypeStubWriter" where
  "emitDecorators E [] w = w"
| "emitDecorators E (decorator # decorators) w =
     emitDecorators E decorators (emitLine (decoratorLine E decorator) w)"

definition emitHeaderDocString :: "TypeStubWriter \<Rightarrow> TypeStubWriter" where
  "emitHeaderDocString w =
     (let w = emitLine [CHR 0x22, CHR 0x22, CHR 0x22] w;
          w = emitLine ''This type stub file was generated by pyright.'' w;
          w = emitLine [CHR 0x22, CHR 0x22, CHR 0x22] w
      in emitLine [] w)"

subsection \<open>The visit methods\<close>

text \<open>
  Each visit method returns the flag it hands back to the walker together with the new state.
  \<open>this.walkChildren(node)\<close> is the argument \<open>walkChildren\<close>.
\<close>

definition classHeader :: "'e Collaborators \<Rightarrow> string \<Rightarrow> 'e ArgumentNode list \<Rightarrow> string" where
  "classHeader E className arguments =
     (let line = ''class '' @ className;
          line = (if length arguments > 0
                  then line @ ''('' @ join '', '' (map (printClassArgument E) arguments) @ '')''
                  else line)
      in line @ '':'')"

text \<open>The arrow function that \<open>visitClass\<close> hands to \<open>_emitSuite\<close>.\<close>

definition classSuiteCallback ::
  "(TypeStubWriter \<Rightarrow> TypeStubWriter) \<Rightarrow> TypeStubWriter \<Rightarrow> TypeStubWriter" where
  "classSuiteCallback walkChildren w =
     (let w = w\<lparr>classNestCount := classNestCount w + 1\<rparr>;
          w = walkChildren w
      in w\<lparr>classNestCount := classNestCount w - 1\<rparr>)"

definition visitClass ::
  "'e Collaborators \<Rightarrow> (TypeStubWriter \<Rightarrow> TypeStubWriter) \<Rightarrow> 'e DecoratorNode list \<Rightarrow> string \<Rightarrow>
   'e ArgumentNode list \<Rightarrow> TypeStubWriter \<Rightarrow> bool \<times> TypeStubWriter" where
  "visitClass E walkChildren decorators className arguments w =
     (if \<not> isProtectedName E className \<and> \<not> isPrivateName E className then
        let w = w\<lparr>emittedSuite := True\<rparr>;
            w = emitDecorators E decorators w;
            w = emitLine (classHeader E className arguments) w;
            w = emitSuite (classSuiteCallback walkChildren) w;
            w = emitLine [] w;
            w = emitLine [] w
        in (False, w)
      else (False, w))"

definition functionHeader ::
  "'e Collaborators \<Rightarrow> bool \<Rightarrow> string \<Rightarrow> 'e ParameterNode list \<Rightarrow> 'e option \<Rightarrow> string" where
  "functionHeader E isAsync functionName parameters returnTypeAnnotation =
     (let line = (if isAsync then ''async '' else []);
          line = line @ ''def '' @ functionName;
          line = line @ ''('' @ join '', '' (map (printParameter E) parameters) @ '')'';
          line = (case returnTypeAnnotation of
                    Some r \<Rightarrow> line @ '' -> '' @ printExpression E r
                  | None \<Rightarrow> line)
      in line @ '':'')"

text \<open>The arrow function that \<open>visitFunction\<close> hands to \<open>_emitSuite\<close>.\<close>

definition functionSuiteCallback ::
  "(TypeStubWriter \<Rightarrow> TypeStubWriter) \<Rightarrow> TypeStubWriter \<Rightarrow> TypeStubWriter" where
  "functionSuiteCallback walkChildren w =
     (let w = w\<lparr>functionNestCount := functionNestCount w + 1\<rparr>;
          w = walkChildren w
      in w\<lparr>functionNestCount := functionNestCount w - 1\<rparr>)"

definition visitFunction ::
  "'e Collaborators \<Rightarrow> (TypeStubWriter \<Rightarrow> TypeStubWriter) \<Rightarrow> 'e DecoratorNode list \<Rightarrow> bool \<Rightarrow>
   string \<Rightarrow> 'e ParameterNode list \<Rightarrow> 'e option \<Rightarrow> TypeStubWriter \<Rightarrow> bool \<times> TypeStubWriter" where
  "visitFunction E walkChildren decorators isAsync functionName parameters returnTypeAnnotation w =
     (if functionNestCount w = 0 \<and> \<not> isProtectedName E functionName
           \<and> \<not> isPrivateName E functionName then
        let w = w\<lparr>emittedSuite := True\<rparr>;
            w = emitDecorators E decorators w;
            w = emitLine
                  (functionHeader E isAsync functionName parameters returnTypeAnnotation) w;
            w = emitSuite (functionSuiteCallback walkChildren) w;
            w = emitLine [] w
        in (False, w)
      else (False, w))"

definition printImportAs :: "ImportAsNode \<Rightarrow> string" where
  "printImportAs imp =
     (let impText = printModuleName (importModule imp)
      in case importAlias imp of Some a \<Rightarrow> impText @ '' as '' @ a | None \<Rightarrow> impText)"

definition visitImport :: "ImportAsNode list \<Rightarrow> TypeStubWriter \<Rightarrow> bool \<times> TypeStubWriter" where
  "visitImport list w =
     (if functionNestCount w > 0 \<or> classNestCount w > 0 then (False, w)
      else
        let line = ''import '';
            line = line @ join '', '' (map printImportAs list)
        in (False, emitLine line w))"

definition printImportFromAs :: "ImportFromAsNode \<Rightarrow> string" where
  "printImportFromAs imp =
     (let impString = importFromName imp
      in case importFromAlias imp of Some a \<Rightarrow> impString @ '' as '' @ a | None \<Rightarrow> impString)"

definition visitImportFrom ::
  "ModuleNameNode \<Rightarrow> bool \<Rightarrow> ImportFromAsNode list \<Rightarrow> TypeStubWriter \<Rightarrow> bool \<times> TypeStubWriter"
  where
  "visitImportFrom module isWildcardImport imports w =
     (if functionNestCount w > 0 \<or> classNestCount w > 0 then (False, w)
      else
        let line = ''from '' @ printModuleName module @ '' import '';
            line = (if isWildcardImport then line @ ''*''
                    else line @ join '', '' (map printImportFromAs imports))
        in (False, emitLine line w))"

subsection \<open>The walk\<close>

text \<open>
  Modelled from the spec: the base class \<open>ParseTreeWalker\<close> (its methods \<open>walk\<close> and
  \<open>walkChildren\<close>) is not part of the source at hand. \<open>walk\<close> calls the visit method of the
  node's kind and goes on to the node's children exactly when that method returns true;
  \<open>walkChildren\<close> walks the children in order. A kind without an override keeps the default
  visit method, which returns true and does nothing. The four overrides of the writer return
  false on every path: where they want the children walked they call \<open>walkChildren\<close> themselves,
  inside the suite, and the false they return keeps the walker from walking the children a
  second time. For a node they reject "the traversal simply does not visit its subtree".
\<close>

fun walk :: "'e Collaborators \<Rightarrow> 'e ParseNode \<Rightarrow> TypeStubWriter \<Rightarrow> TypeStubWriter"
  and walkMultiple :: "'e Collaborators \<Rightarrow> 'e ParseNode list \<Rightarrow> TypeStubWriter \<Rightarrow> TypeStubWriter"
  where
  "walk E (ModuleNode children) w = walkMultiple E children w"
| "walk E (ClassNode decorators className arguments children) w =
     (case visitClass E (walkMultiple E children) decorators className arguments w of
        (descend, w') \<Rightarrow> if descend then walkMultiple E children w' else w')"
| "walk E (FunctionNode decorators isAsync functionName parameters returnTypeAnnotation children) w =
     (case visitFunction E (walkMultiple E children) decorators isAsync functionName parameters
             returnTypeAnnotation w of
        (descend, w') \<Rightarrow> if descend then walkMultiple E children w' else w')"
| "walk E (ImportNode list) w =
     (case visitImport list w of
        (descend, w') \<Rightarrow> w')"
| "walk E (ImportFromNode module isWildcardImport imports) w =
     (case visitImportFrom module isWildcardImport imports w of
        (descend, w') \<Rightarrow> w')"
| "walk E (OtherNode children) w = walkMultiple E children w"
| "walkMultiple E [] w = w"
| "walkMultiple E (node # nodes) w = walkMultiple E nodes (walk E node w)"

subsection \<open>Writing the stub file\<close>








subsection \<open>Vocabulary for the properties\<close>

text \<open>
  The text that \<open>_emitLine\<close> appends for \<open>line\<close> at indentation \<open>depth\<close>, with the tab and line end
  sequences of the writer \<open>w\<close>.
\<close>

definition lineText :: "TypeStubWriter \<Rightarrow> int \<Rightarrow> string \<Rightarrow> string" where
  "lineText w depth line = concat (replicate (nat depth) (tab w)) @ line @ lineEnd w"

text \<open>A name that the visibility filter of \<open>visitClass\<close> and \<open>visitFunction\<close> rejects.\<close>

definition rejectedName :: "'e Collaborators \<Rightarrow> string \<Rightarrow> bool" where
  "rejectedName E n = (isProtectedName E n \<or> isPrivateName E n)"

text \<open>
  A member of a suite that is filtered out: a class or function with a rejected name, an import
  (imports are only rendered at module scope), or any other node all of whose children are
  filtered out.
\<close>

fun filteredOut :: "'e Collaborators \<Rightarrow> 'e ParseNode \<Rightarrow> bool" where
  "filteredOut E (ModuleNode children) = list_all (filteredOut E) children"
| "filteredOut E (ClassNode decorators className arguments children) = rejectedName E className"
| "filteredOut E (FunctionNode decorators isAsync functionName parameters returnTypeAnnotation
      children) = rejectedName E functionName"
| "filteredOut E (ImportNode list) = True"
| "filteredOut E (ImportFromNode module isWildcardImport imports) = True"
| "filteredOut E (OtherNode children) = list_all (filteredOut E) children"

text \<open>
  A class or function node with a rejected name, and the tree without such nodes: every class
  and function with a rejected name is deleted from every list of children.
\<close>

fun rejectedNode :: "'e Collaborators \<Rightarrow> 'e ParseNode \<Rightarrow> bool" where
  "rejectedNode E (ClassNode decorators className arguments children) = rejectedName E className"
| "rejectedNode E (FunctionNode decorators isAsync functionName parameters returnTypeAnnotation
      children) = rejectedName E functionName"
| "rejectedNode E node = False"

fun withoutRejected :: "'e Collaborators \<Rightarrow> 'e ParseNode \<Rightarrow> 'e ParseNode"
  and withoutRejectedList :: "'e Collaborators \<Rightarrow> 'e ParseNode list \<Rightarrow> 'e ParseNode list"
  where
  "withoutRejected E (ModuleNode children) = ModuleNode (withoutRejectedList E children)"
| "withoutRejected E (ClassNode decorators className arguments children) =
     ClassNode decorators className arguments (withoutRejectedList E children)"
| "withoutRejected E (FunctionNode decorators isAsync functionName parameters returnTypeAnnotation
      children) =
     FunctionNode decorators isAsync functionName parameters returnTypeAnnotation
       (withoutRejectedList E children)"
| "withoutRejected E (ImportNode list) = ImportNode list"
| "withoutRejected E (ImportFromNode module isWildcardImport imports) =
     ImportFromNode module isWildcardImport imports"
| "withoutRejected E (OtherNode children) = OtherNode (withoutRejectedList E children)"
| "withoutRejectedList E [] = []"
| "withoutRejectedList E (node # nodes) =
     (if rejectedNode E node then withoutRejectedList E nodes
      else withoutRejected E node # withoutRejectedList E nodes)"

text \<open>
  The function nodes, and a list of nodes without any function node, at whatever depth below
  the list.
\<close>

fun isFunctionNode :: "'e ParseNode \<Rightarrow> bool" where
  "isFunctionNode (FunctionNode decorators isAsync functionName parameters returnTypeAnnotation
      children) = True"
| "isFunctionNode node = False"

fun withoutFunctions :: "'e ParseNode \<Rightarrow> 'e ParseNode"
  and withoutFunctionsList :: "'e ParseNode list \<Rightarrow> 'e ParseNode list"
  where
  "withoutFunctions (ModuleNode children) = ModuleNode (withoutFunctionsList children)"
| "withoutFunctions (ClassNode decorators className arguments children) =
     ClassNode decorators className arguments (withoutFunctionsList children)"
| "withoutFunctions (FunctionNode decorators isAsync functionName parameters returnTypeAnnotation
      children) =
     FunctionNode decorators isAsync functionName parameters returnTypeAnnotation
       (withoutFunctionsList children)"
| "withoutFunctions (ImportNode list) = ImportNode list"
| "withoutFunctions (ImportFromNode module isWildcardImport imports) =
     ImportFromNode module isWildcardImport imports"
| "withoutFunctions (OtherNode children) = OtherNode (withoutFunctionsList children)"
| "withoutFunctionsList [] = []"
| "withoutFunctionsList (node # nodes) =
     (if isFunctionNode node then withoutFunctionsList nodes
      else withoutFunctions node # withoutFunctionsList nodes)"

text \<open>
  The writer \<open>w\<close> with the text \<open>p\<close> put in front of its buffer and its suite flag raised
  when \<open>b\<close> holds: how a writer that has been used differs from one that has not.
\<close>

definition rebase :: "string \<Rightarrow> bool \<Rightarrow> TypeStubWriter \<Rightarrow> TypeStubWriter" where
  "rebase p b w = w\<lparr>typeStubText := p @ typeStubText w, emittedSuite := (emittedSuite w \<or> b)\<rparr>"

text \<open>
  What a walk keeps of the writer's state: the indentation, the two formatting sequences and
  the two nesting counters.
\<close>

definition sameFrame :: "TypeStubWriter \<Rightarrow> TypeStubWriter \<Rightarrow> bool" where
  "sameFrame w w' =
     (indentAmount w' = indentAmount w \<and> tab w' = tab w \<and> lineEnd w' = lineEnd w
      \<and> classNestCount w' = classNestCount w \<and> functionNestCount w' = functionNestCount w)"

text \<open>
  The invariant of the walk, relating the state before a walk to the state after it: the frame
  is kept, the suite flag is never cleared, the buffer only grows, and inside a class or
  function the walk either changes nothing or sets the suite flag and starts its output with a
  non-empty line at the current indentation.
\<close>

definition walkInv :: "TypeStubWriter \<Rightarrow> TypeStubWriter \<Rightarrow> bool" where
  "walkInv w w' =
     (sameFrame w w' \<and> (emittedSuite w \<longrightarrow> emittedSuite w')
      \<and> (\<exists>t. typeStubText w' = typeStubText w @ t)
      \<and> (0 < classNestCount w \<or> 0 < functionNestCount w \<longrightarrow>
           w' = w \<or> (emittedSuite w'
             \<and> (\<exists>l rest. l \<noteq> [] \<and>
                   typeStubText w' = typeStubText w @ lineText w (indentAmount w) l @ rest))))"

text \<open>
  Collaborators for the concrete examples: a name with two leading underscores is private, a
  name with one is protected, and an expression is its own text.
\<close>

definition exampleCollaborators :: "string Collaborators" where
  "exampleCollaborators =
     \<lparr> isPrivateName = (\<lambda>n. take 2 n = ''__''),
       isProtectedName = (\<lambda>n. take 1 n = ''_'' \<and> take 2 n \<noteq> ''__''),
       printExpression = (\<lambda>e. e) \<rparr>"

section \<open>Properties\<close>

subsection \<open>Auxiliary facts\<close>

text \<open>The loop of \<open>_emitLine\<close> in closed form, and what \<open>_emitLine\<close> does to each field.\<close>

lemma appendTabs_eq: "appendTabs n t acc = acc @ concat (replicate n t)"
  by (induction n arbitrary: acc) (simp_all add: replicate_append_same)

lemma emitLine_text:
  "typeStubText (emitLine line w) = typeStubText w @ lineText w (indentAmount w) line"
  by (simp add: emitLine_def lineText_def appendTabs_eq)

lemma emitLine_fields [simp]:
  "indentAmount (emitLine line w) = indentAmount w"
  "tab (emitLine line w) = tab w"
  "lineEnd (emitLine line w) = lineEnd w"
  "classNestCount (emitLine line w) = classNestCount w"
  "functionNestCount (emitLine line w) = functionNestCount w"
  "emittedSuite (emitLine line w) = emittedSuite w"
  by (simp_all add: emitLine_def Let_def)

lemma lineText_cong:
  "tab w' = tab w \<Longrightarrow> lineEnd w' = lineEnd w \<Longrightarrow> lineText w' d l = lineText w d l"
  by (simp add: lineText_def)

lemma emitDecorators_fields [simp]:
  "indentAmount (emitDecorators E ds w) = indentAmount w"
  "tab (emitDecorators E ds w) = tab w"
  "lineEnd (emitDecorators E ds w) = lineEnd w"
  "classNestCount (emitDecorators E ds w) = classNestCount w"
  "functionNestCount (emitDecorators E ds w) = functionNestCount w"
  "emittedSuite (emitDecorators E ds w) = emittedSuite w"
  by (induction ds arbitrary: w; simp)+

lemma emitDecorators_text:
  "typeStubText (emitDecorators E ds w) =
     typeStubText w @ concat (map (\<lambda>d. lineText w (indentAmount w) (decoratorLine E d)) ds)"
  by (induction ds arbitrary: w) (simp_all add: emitLine_text lineText_def)

text \<open>\<open>_emitSuite\<close>: the flag, the frame and the text.\<close>

lemma emitSuite_emittedSuite: "emittedSuite (emitSuite callback w) = emittedSuite w"
  by (simp add: emitSuite_def increaseIndent_def Let_def)

lemma emitSuite_frame:
  assumes "sameFrame (w\<lparr>indentAmount := indentAmount w + 1, emittedSuite := False\<rparr>)
             (callback (w\<lparr>indentAmount := indentAmount w + 1, emittedSuite := False\<rparr>))"
  shows "sameFrame w (emitSuite callback w)"
  using assms by (simp add: emitSuite_def increaseIndent_def Let_def sameFrame_def)

text \<open>The invariant is reflexive and transitive.\<close>

lemma walkInv_refl: "walkInv w w"
  by (simp add: walkInv_def sameFrame_def)

lemma walkInv_trans:
  assumes "walkInv w w'" and "walkInv w' w''"
  shows "walkInv w w''"
proof -
  from assms have fr: "sameFrame w w'" "sameFrame w' w''"
    by (simp_all add: walkInv_def)
  from assms obtain t t' where t: "typeStubText w' = typeStubText w @ t"
    "typeStubText w'' = typeStubText w' @ t'"
    by (auto simp: walkInv_def)
  have lt: "lineText w' (indentAmount w') l = lineText w (indentAmount w) l" for l
    using fr by (simp add: sameFrame_def lineText_def)
  show ?thesis
    unfolding walkInv_def
  proof (intro conjI impI)
    show "sameFrame w w''" using fr by (simp add: sameFrame_def)
    show "emittedSuite w''" if "emittedSuite w" using that assms by (simp add: walkInv_def)
    show "\<exists>t. typeStubText w'' = typeStubText w @ t" using t by simp
    show "w'' = w \<or> (emittedSuite w'' \<and> (\<exists>l rest. l \<noteq> [] \<and>
            typeStubText w'' = typeStubText w @ lineText w (indentAmount w) l @ rest))"
      if inside: "0 < classNestCount w \<or> 0 < functionNestCount w"
    proof -
      from inside fr have inside': "0 < classNestCount w' \<or> 0 < functionNestCount w'"
        by (simp add: sameFrame_def)
      from assms(1) inside consider "w' = w"
        | l rest where "emittedSuite w'" "l \<noteq> []"
            "typeStubText w' = typeStubText w @ lineText w (indentAmount w) l @ rest"
        by (auto simp: walkInv_def)
      then show ?thesis
      proof cases
        case 1
        with assms(2) inside show ?thesis by (simp add: walkInv_def)
      next
        case 2
        from 2(1) assms(2) have "emittedSuite w''" by (simp add: walkInv_def)
        moreover have "typeStubText w'' = typeStubText w @ lineText w (indentAmount w) l @ (rest @ t')"
          using 2(3) t(2) by simp
        ultimately show ?thesis using 2(2) by blast
      qed
    qed
  qed
qed

lemma emitSuite_text:
  "typeStubText (emitSuite callback w) =
     (let w1 = callback (w\<lparr>indentAmount := indentAmount w + 1, emittedSuite := False\<rparr>)
      in if emittedSuite w1 then typeStubText w1
         else typeStubText w1 @ lineText w1 (indentAmount w1) ''...'')"
  by (simp add: emitSuite_def increaseIndent_def Let_def emitLine_text)

text \<open>Decorator and header lines are never empty, so decorators followed by a header start with a non-empty line.\<close>

lemma decoratorLine_nonempty: "decoratorLine E d \<noteq> []"
  by (simp add: decoratorLine_def Let_def split: option.splits)

lemma classHeader_nonempty: "classHeader E n as \<noteq> []"
  by (simp add: classHeader_def Let_def)

lemma functionHeader_nonempty: "functionHeader E a n ps r \<noteq> []"
  by (simp add: functionHeader_def Let_def split: option.splits)

lemma decorated_header_first_line:
  assumes "hdr \<noteq> []"
  shows "\<exists>l rest. l \<noteq> [] \<and>
           typeStubText (emitLine hdr (emitDecorators E ds w)) =
             typeStubText w @ lineText w (indentAmount w) l @ rest"
proof (cases ds)
  case Nil
  have "typeStubText (emitLine hdr (emitDecorators E ds w)) =
          typeStubText w @ lineText w (indentAmount w) hdr @ []"
    by (simp add: Nil emitLine_text)
  then show ?thesis using assms by blast
next
  case (Cons d ds')
  have "typeStubText (emitLine hdr (emitDecorators E ds w)) =
          typeStubText w @ lineText w (indentAmount w) (decoratorLine E d)
            @ (concat (map (\<lambda>d. lineText w (indentAmount w) (decoratorLine E d)) ds')
               @ lineText w (indentAmount w) hdr)"
    by (simp add: Cons emitLine_text emitDecorators_text lineText_def)
  then show ?thesis using decoratorLine_nonempty by blast
qed

text \<open>The two suites, for a callback that satisfies the invariant.\<close>

lemma classSuite_facts:
  fixes w :: TypeStubWriter and cb :: "TypeStubWriter \<Rightarrow> TypeStubWriter"
  defines "v \<equiv> w\<lparr>indentAmount := indentAmount w + 1, emittedSuite := False,
                    classNestCount := classNestCount w + 1\<rparr>"
  defines "w' \<equiv> emitSuite (classSuiteCallback cb) w"
  assumes inv: "walkInv v (cb v)"
  shows "sameFrame w w'"
    and "emittedSuite w' = emittedSuite w"
    and "typeStubText w' =
           (if emittedSuite (cb v) then typeStubText (cb v)
            else typeStubText (cb v) @ lineText w (indentAmount w + 1) ''...'')"
proof -
  from inv have fr: "sameFrame v (cb v)" by (simp add: walkInv_def)
  then show "sameFrame w w'"
    by (simp add: w'_def v_def emitSuite_def increaseIndent_def Let_def sameFrame_def
          classSuiteCallback_def functionSuiteCallback_def)
  show "emittedSuite w' = emittedSuite w"
    by (simp add: w'_def emitSuite_emittedSuite)
  from fr show "typeStubText w' =
           (if emittedSuite (cb v) then typeStubText (cb v)
            else typeStubText (cb v) @ lineText w (indentAmount w + 1) ''...'')"
    by (simp add: w'_def v_def emitSuite_text Let_def sameFrame_def lineText_def
          classSuiteCallback_def functionSuiteCallback_def)
qed

lemma functionSuite_facts:
  fixes w :: TypeStubWriter and cb :: "TypeStubWriter \<Rightarrow> TypeStubWriter"
  defines "v \<equiv> w\<lparr>indentAmount := indentAmount w + 1, emittedSuite := False,
                    functionNestCount := functionNestCount w + 1\<rparr>"
  defines "w' \<equiv> emitSuite (functionSuiteCallback cb) w"
  assumes inv: "walkInv v (cb v)"
  shows "sameFrame w w'"
    and "emittedSuite w' = emittedSuite w"
    and "typeStubText w' =
           (if emittedSuite (cb v) then typeStubText (cb v)
            else typeStubText (cb v) @ lineText w (indentAmount w + 1) ''...'')"
proof -
  from inv have fr: "sameFrame v (cb v)" by (simp add: walkInv_def)
  then show "sameFrame w w'"
    by (simp add: w'_def v_def emitSuite_def increaseIndent_def Let_def sameFrame_def
          classSuiteCallback_def functionSuiteCallback_def)
  show "emittedSuite w' = emittedSuite w"
    by (simp add: w'_def emitSuite_emittedSuite)
  from fr show "typeStubText w' =
           (if emittedSuite (cb v) then typeStubText (cb v)
            else typeStubText (cb v) @ lineText w (indentAmount w + 1) ''...'')"
    by (simp add: w'_def v_def emitSuite_text Let_def sameFrame_def lineText_def
          classSuiteCallback_def functionSuiteCallback_def)
qed

text \<open>Every visit method keeps the invariant, and so does the walk.\<close>

lemma emitted_walkInv:
  assumes "sameFrame w w'" and "emittedSuite w'"
    and "typeStubText w' = typeStubText w @ lineText w (indentAmount w) l @ rest"
    and "l \<noteq> []"
  shows "walkInv w w'"
  using assms unfolding walkInv_def by blast

lemma visitClass_walkInv:
  assumes cb: "\<And>v. walkInv v (cb v)"
  shows "walkInv w (snd (visitClass E cb ds n as w))"
proof (cases "\<not> isProtectedName E n \<and> \<not> isPrivateName E n")
  case False
  then show ?thesis by (auto simp: visitClass_def walkInv_refl)
next
  case True
  define w3 where "w3 = emitLine (classHeader E n as) (emitDecorators E ds (w\<lparr>emittedSuite := True\<rparr>))"
  define v where "v = w3\<lparr>indentAmount := indentAmount w3 + 1, emittedSuite := False,
                    classNestCount := classNestCount w3 + 1\<rparr>"
  define w4 where "w4 = emitSuite (classSuiteCallback cb) w3"
  have res: "snd (visitClass E cb ds n as w) = emitLine [] (emitLine [] w4)"
    using True by (simp add: visitClass_def Let_def w4_def w3_def)
  have inv: "walkInv v (cb v)" by (rule cb)
  note sf = classSuite_facts[where w=w3 and cb=cb, OF inv[unfolded v_def], folded v_def w4_def]
  from inv obtain t where t: "typeStubText (cb v) = typeStubText w3 @ t"
    by (auto simp: walkInv_def v_def)
  from sf(3) t obtain t4 where t4: "typeStubText w4 = typeStubText w3 @ t4"
    by (cases "emittedSuite (cb v)") auto
  have fr3: "sameFrame w w3" "emittedSuite w3"
    by (simp_all add: w3_def sameFrame_def)
  obtain l rest where l: "l \<noteq> []"
    "typeStubText w3 = typeStubText w @ lineText w (indentAmount w) l @ rest"
    using decorated_header_first_line[OF classHeader_nonempty, of E n as E ds "w\<lparr>emittedSuite := True\<rparr>"]
    by (auto simp: w3_def lineText_def)
  have "sameFrame w (emitLine [] (emitLine [] w4))"
    using fr3(1) sf(1) by (simp add: sameFrame_def)
  moreover have "emittedSuite (emitLine [] (emitLine [] w4))"
    using fr3(2) sf(2) by simp
  moreover have "typeStubText (emitLine [] (emitLine [] w4)) =
      typeStubText w @ lineText w (indentAmount w) l
        @ (rest @ t4 @ lineText w4 (indentAmount w4) [] @ lineText w4 (indentAmount w4) [])"
    using l(2) t4 by (simp add: emitLine_text lineText_def)
  ultimately show ?thesis
    unfolding res using l(1) by (rule emitted_walkInv)
qed

lemma visitFunction_walkInv:
  assumes cb: "\<And>v. walkInv v (cb v)"
  shows "walkInv w (snd (visitFunction E cb ds a n ps r w))"
proof (cases "functionNestCount w = 0 \<and> \<not> isProtectedName E n \<and> \<not> isPrivateName E n")
  case False
  then show ?thesis by (auto simp: visitFunction_def walkInv_refl)
next
  case True
  define w3 where "w3 = emitLine (functionHeader E a n ps r) (emitDecorators E ds (w\<lparr>emittedSuite := True\<rparr>))"
  define v where "v = w3\<lparr>indentAmount := indentAmount w3 + 1, emittedSuite := False,
                    functionNestCount := functionNestCount w3 + 1\<rparr>"
  define w4 where "w4 = emitSuite (functionSuiteCallback cb) w3"
  have res: "snd (visitFunction E cb ds a n ps r w) = emitLine [] w4"
    using True by (simp add: visitFunction_def Let_def w4_def w3_def)
  have inv: "walkInv v (cb v)" by (rule cb)
  note sf = functionSuite_facts[where w=w3 and cb=cb, OF inv[unfolded v_def], folded v_def w4_def]
  from inv obtain t where t: "typeStubText (cb v) = typeStubText w3 @ t"
    by (auto simp: walkInv_def v_def)
  from sf(3) t obtain t4 where t4: "typeStubText w4 = typeStubText w3 @ t4"
    by (cases "emittedSuite (cb v)") auto
  have fr3: "sameFrame w w3" "emittedSuite w3"
    by (simp_all add: w3_def sameFrame_def)
  obtain l rest where l: "l \<noteq> []"
    "typeStubText w3 = typeStubText w @ lineText w (indentAmount w) l @ rest"
    using decorated_header_first_line[OF functionHeader_nonempty, of E a n ps r E ds "w\<lparr>emittedSuite := True\<rparr>"]
    by (auto simp: w3_def lineText_def)
  have "sameFrame w (emitLine [] w4)"
    using fr3(1) sf(1) by (simp add: sameFrame_def)
  moreover have "emittedSuite (emitLine [] w4)"
    using fr3(2) sf(2) by simp
  moreover have "typeStubText (emitLine [] w4) =
      typeStubText w @ lineText w (indentAmount w) l
        @ (rest @ t4 @ lineText w4 (indentAmount w4) [])"
    using l(2) t4 by (simp add: emitLine_text lineText_def)
  ultimately show ?thesis
    unfolding res using l(1) by (rule emitted_walkInv)
qed

lemma visitImport_walkInv: "walkInv w (snd (visitImport list w))"
  by (auto simp: visitImport_def walkInv_def sameFrame_def Let_def emitLine_text)

lemma visitImportFrom_walkInv: "walkInv w (snd (visitImportFrom m b is w))"
  by (auto simp: visitImportFrom_def walkInv_def sameFrame_def Let_def emitLine_text)

lemma walk_walkInv:
  "walkInv w (walk E node w)"
  "walkInv w (walkMultiple E nodes w)"
proof (induction E node w and E nodes w rule: walk_walkMultiple.induct)
  case (2 E decorators className arguments children w)
  have "walkInv w (snd (visitClass E (walkMultiple E children) decorators className arguments w))"
    by (rule visitClass_walkInv) (rule 2(1))
  moreover have "\<not> fst (visitClass E (walkMultiple E children) decorators className arguments w)"
    by (simp add: visitClass_def Let_def)
  ultimately show ?case by (simp add: split_beta)
next
  case (3 E decorators isAsync functionName parameters returnTypeAnnotation children w)
  have "walkInv w (snd (visitFunction E (walkMultiple E children) decorators isAsync functionName
           parameters returnTypeAnnotation w))"
    by (rule visitFunction_walkInv) (rule 3(1))
  moreover have "\<not> fst (visitFunction E (walkMultiple E children) decorators isAsync functionName
           parameters returnTypeAnnotation w)"
    by (simp add: visitFunction_def Let_def)
  ultimately show ?case by (simp add: split_beta)
next
  case (4 E list w)
  then show ?case using visitImport_walkInv[of w list] by (simp add: split_beta)
next
  case (5 E m isWildcardImport imps w)
  then show ?case using visitImportFrom_walkInv[of w] by (simp add: split_beta)
next
  case (8 E node nodes w)
  then show ?case using walkInv_trans by auto
qed (simp_all add: walkInv_refl)


text \<open>The overrides hand false back to the walker, so the walk of a class or function node is the visit alone.\<close>

lemma visitClass_fst: "fst (visitClass E cb ds n as w) = False"
  by (simp add: visitClass_def Let_def)

lemma visitFunction_fst: "fst (visitFunction E cb ds a n ps r w) = False"
  by (simp add: visitFunction_def Let_def)

lemma walk_ClassNode:
  "walk E (ClassNode ds n as cs) w = snd (visitClass E (walkMultiple E cs) ds n as w)"
  using visitClass_fst[of E "walkMultiple E cs" ds n as w] by (simp add: split_beta)

lemma walk_FunctionNode:
  "walk E (FunctionNode ds a n ps r cs) w = snd (visitFunction E (walkMultiple E cs) ds a n ps r w)"
  using visitFunction_fst[of E "walkMultiple E cs" ds a n ps r w] by (simp add: split_beta)

text \<open>Nodes that the filters reject leave the state as it is.\<close>

lemma walk_rejected_class: "rejectedName E n \<Longrightarrow> walk E (ClassNode ds n as cs) w = w"
  by (auto simp: walk_ClassNode visitClass_def rejectedName_def)

lemma walk_rejected_function: "rejectedName E n \<Longrightarrow> walk E (FunctionNode ds a n ps r cs) w = w"
  by (auto simp: walk_FunctionNode visitFunction_def rejectedName_def)

lemma walk_nested_function:
  "functionNestCount w \<noteq> 0 \<Longrightarrow> walk E (FunctionNode ds a n ps r cs) w = w"
  by (auto simp: walk_FunctionNode visitFunction_def)

lemma walk_rejectedNode: "rejectedNode E node \<Longrightarrow> walk E node w = w"
  by (cases node) (simp_all add: walk_rejected_class walk_rejected_function del: walk.simps)

text \<open>Deleting the rejected nodes from a tree does not change the walk.\<close>

lemma walk_withoutRejected:
  "walk E (withoutRejected E node) w = walk E node w"
  "walkMultiple E (withoutRejectedList E nodes) w = walkMultiple E nodes w"
proof (induction E node w and E nodes w rule: walk_walkMultiple.induct)
  case (2 E decorators className arguments children w)
  have "walkMultiple E (withoutRejectedList E children) = walkMultiple E children"
    by (rule ext) (rule 2(1))
  then show ?case by (simp add: walk_ClassNode del: walk.simps)
next
  case (3 E decorators isAsync functionName parameters returnTypeAnnotation children w)
  have "walkMultiple E (withoutRejectedList E children) = walkMultiple E children"
    by (rule ext) (rule 3(1))
  then show ?case by (simp add: walk_FunctionNode del: walk.simps)
next
  case (8 E node nodes w)
  show ?case
  proof (cases "rejectedNode E node")
    case True
    then have "walk E node w = w" by (rule walk_rejectedNode)
    with 8(2) True show ?thesis by simp
  next
    case False
    with 8 show ?thesis by simp
  qed
qed simp_all

text \<open>Inside a function, deleting every function node does not change the walk.\<close>

lemma walk_sameFrame:
  "sameFrame w (walk E node w)"
  "sameFrame w (walkMultiple E nodes w)"
  using walk_walkInv[of w E] by (simp_all add: walkInv_def)

lemma walk_functionNestCount:
  "functionNestCount (walk E node w) = functionNestCount w"
  using walk_sameFrame(1)[of w E node] by (simp add: sameFrame_def)

lemma visitClass_cong_nested:
  assumes "\<And>u. functionNestCount u = functionNestCount w \<Longrightarrow> cb u = cb' u"
  shows "visitClass E cb ds n as w = visitClass E cb' ds n as w"
proof -
  have "classSuiteCallback cb u = classSuiteCallback cb' u"
    if "functionNestCount u = functionNestCount w" for u
    using assms[of "u\<lparr>classNestCount := classNestCount u + 1\<rparr>"] that
    by (simp add: classSuiteCallback_def Let_def)
  then have "emitSuite (classSuiteCallback cb) u = emitSuite (classSuiteCallback cb') u"
    if "functionNestCount u = functionNestCount w" for u
    using that by (simp add: emitSuite_def increaseIndent_def Let_def)
  then show ?thesis
    by (simp add: visitClass_def Let_def)
qed

lemma visitFunction_cong_nested:
  assumes "\<And>u. functionNestCount u = functionNestCount w + 1 \<Longrightarrow> cb u = cb' u"
  shows "visitFunction E cb ds a n ps r w = visitFunction E cb' ds a n ps r w"
proof -
  have "functionSuiteCallback cb u = functionSuiteCallback cb' u"
    if "functionNestCount u = functionNestCount w" for u
    using assms[of "u\<lparr>functionNestCount := functionNestCount u + 1\<rparr>"] that
    by (simp add: functionSuiteCallback_def Let_def)
  then have "emitSuite (functionSuiteCallback cb) u = emitSuite (functionSuiteCallback cb') u"
    if "functionNestCount u = functionNestCount w" for u
    using that by (simp add: emitSuite_def increaseIndent_def Let_def)
  then show ?thesis
    by (simp add: visitFunction_def Let_def)
qed

lemma walk_isFunctionNode:
  "isFunctionNode node \<Longrightarrow> functionNestCount w \<noteq> 0 \<Longrightarrow> walk E node w = w"
  by (cases node) (simp_all add: walk_nested_function del: walk.simps)

lemma walk_withoutFunctions:
  "functionNestCount w \<noteq> 0 \<Longrightarrow> walk E (withoutFunctions node) w = walk E node w"
  "functionNestCount w \<noteq> 0 \<Longrightarrow>
     walkMultiple E (withoutFunctionsList nodes) w = walkMultiple E nodes w"
proof (induction E node w and E nodes w rule: walk_walkMultiple.induct)
  case (2 E decorators className arguments children w)
  have "visitClass E (walkMultiple E (withoutFunctionsList children)) decorators className
          arguments w
        = visitClass E (walkMultiple E children) decorators className arguments w"
    by (rule visitClass_cong_nested) (use 2 in simp)
  then show ?case by (simp add: walk_ClassNode del: walk.simps)
next
  case (3 E decorators isAsync functionName parameters returnTypeAnnotation children w)
  then show ?case by (simp add: walk_nested_function del: walk.simps)
next
  case (8 E node nodes w)
  show ?case
  proof (cases "isFunctionNode node")
    case True
    then have "walk E node w = w" using 8(3) by (rule walk_isFunctionNode)
    with 8 True show ?thesis by simp
  next
    case False
    with 8 show ?thesis by (simp add: walk_functionNestCount del: walk.simps)
  qed
qed simp_all

lemma walk_function_withoutFunctions:
  "walk E (FunctionNode ds a n ps r (withoutFunctionsList cs)) w
     = walk E (FunctionNode ds a n ps r cs) w"
proof -
  have "visitFunction E (walkMultiple E (withoutFunctionsList cs)) ds a n ps r w
        = visitFunction E (walkMultiple E cs) ds a n ps r w"
  proof (cases "functionNestCount w = 0")
    case True
    show ?thesis
      by (rule visitFunction_cong_nested) (simp add: True walk_withoutFunctions(2))
  next
    case False
    then show ?thesis by (simp add: visitFunction_def)
  qed
  then show ?thesis by (simp add: walk_FunctionNode del: walk.simps)
qed

text \<open>Inside a suite, filtered members leave the state as it is; the first line of a suite.\<close>

lemma walk_filteredOut:
  "0 < classNestCount w \<or> 0 < functionNestCount w \<Longrightarrow> filteredOut E node \<Longrightarrow>
     walk E node w = w"
  "0 < classNestCount w \<or> 0 < functionNestCount w \<Longrightarrow> list_all (filteredOut E) nodes \<Longrightarrow>
     walkMultiple E nodes w = w"
proof (induction E node w and E nodes w rule: walk_walkMultiple.induct)
  case (2 E decorators className arguments children w)
  then show ?case by (simp add: walk_rejected_class del: walk.simps)
next
  case (3 E decorators isAsync functionName parameters returnTypeAnnotation children w)
  then show ?case by (simp add: walk_rejected_function del: walk.simps)
next
  case (4 E list w)
  then show ?case by (auto simp: visitImport_def)
next
  case (5 E m isWildcardImport imps w)
  then show ?case by (auto simp: visitImportFrom_def)
qed simp_all

lemma classSuite_first_line:
  assumes "0 \<le> classNestCount w"
  shows "\<exists>l rest. l \<noteq> [] \<and>
           typeStubText (emitSuite (classSuiteCallback (walkMultiple E cs)) w) =
             typeStubText w @ lineText w (indentAmount w + 1) l @ rest"
proof -
  define v where "v = w\<lparr>indentAmount := indentAmount w + 1, emittedSuite := False,
                    classNestCount := classNestCount w + 1\<rparr>"
  define v' where "v' = walkMultiple E cs v"
  have inv: "walkInv v v'" unfolding v'_def by (rule walk_walkInv(2))
  note sf = classSuite_facts(3)[where w=w and cb="walkMultiple E cs", OF inv[unfolded v'_def v_def],
      folded v_def, folded v'_def]
  have inside: "0 < classNestCount v" using assms by (simp add: v_def)
  have lt: "lineText v (indentAmount v) l = lineText w (indentAmount w + 1) l" for l
    by (simp add: v_def lineText_def)
  from inv inside consider "v' = v"
    | l rest where "emittedSuite v'" "l \<noteq> []"
        "typeStubText v' = typeStubText v @ lineText v (indentAmount v) l @ rest"
    by (auto simp: walkInv_def)
  then show ?thesis
  proof cases
    case 1
    then have "typeStubText (emitSuite (classSuiteCallback (walkMultiple E cs)) w) =
        typeStubText w @ lineText w (indentAmount w + 1) ''...'' @ []"
      using sf by (simp add: v_def)
    then show ?thesis by blast
  next
    case 2
    then have "typeStubText (emitSuite (classSuiteCallback (walkMultiple E cs)) w) =
        typeStubText w @ lineText w (indentAmount w + 1) l @ rest"
      using sf lt by (simp add: v_def)
    with 2(2) show ?thesis by blast
  qed
qed

lemma functionSuite_first_line:
  assumes "0 \<le> functionNestCount w"
  shows "\<exists>l rest. l \<noteq> [] \<and>
           typeStubText (emitSuite (functionSuiteCallback (walkMultiple E cs)) w) =
             typeStubText w @ lineText w (indentAmount w + 1) l @ rest"
proof -
  define v where "v = w\<lparr>indentAmount := indentAmount w + 1, emittedSuite := False,
                    functionNestCount := functionNestCount w + 1\<rparr>"
  define v' where "v' = walkMultiple E cs v"
  have inv: "walkInv v v'" unfolding v'_def by (rule walk_walkInv(2))
  note sf = functionSuite_facts(3)[where w=w and cb="walkMultiple E cs",
      OF inv[unfolded v'_def v_def], folded v_def, folded v'_def]
  have inside: "0 < functionNestCount v" using assms by (simp add: v_def)
  have lt: "lineText v (indentAmount v) l = lineText w (indentAmount w + 1) l" for l
    by (simp add: v_def lineText_def)
  from inv inside consider "v' = v"
    | l rest where "emittedSuite v'" "l \<noteq> []"
        "typeStubText v' = typeStubText v @ lineText v (indentAmount v) l @ rest"
    by (auto simp: walkInv_def)
  then show ?thesis
  proof cases
    case 1
    then have "typeStubText (emitSuite (functionSuiteCallback (walkMultiple E cs)) w) =
        typeStubText w @ lineText w (indentAmount w + 1) ''...'' @ []"
      using sf by (simp add: v_def)
    then show ?thesis by blast
  next
    case 2
    then have "typeStubText (emitSuite (functionSuiteCallback (walkMultiple E cs)) w) =
        typeStubText w @ lineText w (indentAmount w + 1) l @ rest"
      using sf lt by (simp add: v_def)
    with 2(2) show ?thesis by blast
  qed
qed

lemma class_all_filtered_text:
  assumes "0 \<le> classNestCount w" and "\<not> isProtectedName E n" and "\<not> isPrivateName E n"
    and "list_all (filteredOut E) cs"
  shows "typeStubText (walk E (ClassNode ds n as cs) w) =
           typeStubText (emitDecorators E ds w)
           @ lineText w (indentAmount w) (classHeader E n as)
           @ lineText w (indentAmount w + 1) ''...''
           @ lineText w (indentAmount w) [] @ lineText w (indentAmount w) []"
proof -
  define w3 where "w3 = emitLine (classHeader E n as) (emitDecorators E ds (w\<lparr>emittedSuite := True\<rparr>))"
  define v where "v = w3\<lparr>indentAmount := indentAmount w3 + 1, emittedSuite := False,
                    classNestCount := classNestCount w3 + 1\<rparr>"
  have inside: "0 < classNestCount v \<or> 0 < functionNestCount v"
    using assms(1) by (simp add: v_def w3_def)
  have unchanged: "walkMultiple E cs v = v"
    using inside assms(4) by (rule walk_filteredOut(2))
  have inv: "walkInv v (walkMultiple E cs v)" by (rule walk_walkInv(2))
  note sf = classSuite_facts[where w=w3 and cb="walkMultiple E cs", OF inv[unfolded v_def],
      folded v_def]
  have t4: "typeStubText (emitSuite (classSuiteCallback (walkMultiple E cs)) w3) =
          typeStubText w3 @ lineText w3 (indentAmount w3 + 1) ''...''"
    using sf(3) unchanged by (simp add: v_def)
  have fr: "sameFrame w3 (emitSuite (classSuiteCallback (walkMultiple E cs)) w3)"
    by (rule sf(1))
  have t3: "typeStubText w3 = typeStubText (emitDecorators E ds w)
              @ lineText w (indentAmount w) (classHeader E n as)"
    by (simp add: w3_def emitLine_text emitDecorators_text lineText_def)
  have "walk E (ClassNode ds n as cs) w =
          emitLine [] (emitLine [] (emitSuite (classSuiteCallback (walkMultiple E cs)) w3))"
    using assms(2,3) by (simp add: visitClass_def Let_def w3_def)
  then show ?thesis
    using fr t4 t3 by (simp add: emitLine_text lineText_def sameFrame_def w3_def)
qed

text \<open>The definitions to unfold when the writer is run on a concrete tree.\<close>

lemmas writer_defs =
  newTypeStubWriter_def exampleCollaborators_def visitClass_def visitFunction_def
  visitImport_def visitImportFrom_def emitSuite_def increaseIndent_def emitLine_def
  classSuiteCallback_def functionSuiteCallback_def classHeader_def functionHeader_def
  printClassArgument_def printArgument_def printParameter_def printModuleName_def
  printImportAs_def printImportFromAs_def decoratorLine_def emitHeaderDocString_def
  rejectedName_def lineText_def Let_def

text \<open>The state after a suite has the frame of the state before it.\<close>

lemma classSuite_sameFrame:
  "sameFrame w (emitSuite (classSuiteCallback (walkMultiple E cs)) w)"
  by (rule classSuite_facts(1)) (rule walk_walkInv(2))

lemma functionSuite_sameFrame:
  "sameFrame w (emitSuite (functionSuiteCallback (walkMultiple E cs)) w)"
  by (rule functionSuite_facts(1)) (rule walk_walkInv(2))

lemma emitLine_blank:
  assumes "sameFrame w s"
  shows "emitLine [] s =
           s\<lparr>typeStubText := typeStubText s
                @ concat (replicate (nat (indentAmount w)) (tab w)) @ lineEnd w\<rparr>"
  using assms by (simp add: emitLine_def sameFrame_def appendTabs_eq)

text \<open>
  The walk commutes with putting a text in front of the buffer and raising the suite flag:
  what a walk appends does not depend on what the buffer holds or on the flag it starts with.
\<close>

lemma rebase_fields [simp]:
  "indentAmount (rebase p b w) = indentAmount w"
  "tab (rebase p b w) = tab w"
  "lineEnd (rebase p b w) = lineEnd w"
  "classNestCount (rebase p b w) = classNestCount w"
  "functionNestCount (rebase p b w) = functionNestCount w"
  "typeStubText (rebase p b w) = p @ typeStubText w"
  "emittedSuite (rebase p b w) = (emittedSuite w \<or> b)"
  by (simp_all add: rebase_def)


















subsection \<open>C1: every suite has a body\<close>

text \<open>
  C1. Every suite that \<open>visitClass\<close> or \<open>visitFunction\<close> opens through \<open>_emitSuite\<close> appends at
  least one line before it closes: the text after the suite is the text before it, followed by
  a non-empty line at one indentation level more, followed by whatever else the suite holds.
  For a class with a public name all of whose members are filtered out, the output is the
  decorators, the header line, exactly one line \<open>...\<close> one level deeper than the header, and the
  two blank lines that close a class. The nesting counters are non-negative, as they are in
  every state a run reaches.
\<close>

theorem suite_never_empty:
  assumes "0 \<le> classNestCount w" and "0 \<le> functionNestCount w"
  shows "(\<exists>l rest. l \<noteq> [] \<and>
            typeStubText (emitSuite (classSuiteCallback (walkMultiple E cs)) w) =
              typeStubText w @ lineText w (indentAmount w + 1) l @ rest)
         \<and> (\<exists>l rest. l \<noteq> [] \<and>
            typeStubText (emitSuite (functionSuiteCallback (walkMultiple E cs)) w) =
              typeStubText w @ lineText w (indentAmount w + 1) l @ rest)
         \<and> (\<not> isProtectedName E n \<and> \<not> isPrivateName E n \<and> list_all (filteredOut E) cs \<longrightarrow>
            typeStubText (walk E (ClassNode ds n as cs) w) =
              typeStubText (emitDecorators E ds w)
              @ lineText w (indentAmount w) (classHeader E n as)
              @ lineText w (indentAmount w + 1) ''...''
              @ lineText w (indentAmount w) [] @ lineText w (indentAmount w) [])"
proof (intro conjI impI)
  show "\<exists>l rest. l \<noteq> [] \<and>
            typeStubText (emitSuite (classSuiteCallback (walkMultiple E cs)) w) =
              typeStubText w @ lineText w (indentAmount w + 1) l @ rest"
    by (rule classSuite_first_line[OF assms(1)])
  show "\<exists>l rest. l \<noteq> [] \<and>
            typeStubText (emitSuite (functionSuiteCallback (walkMultiple E cs)) w) =
              typeStubText w @ lineText w (indentAmount w + 1) l @ rest"
    by (rule functionSuite_first_line[OF assms(2)])
  assume "\<not> isProtectedName E n \<and> \<not> isPrivateName E n \<and> list_all (filteredOut E) cs"
  then have "\<not> isProtectedName E n" "\<not> isPrivateName E n" "list_all (filteredOut E) cs"
    by simp_all
  then show "typeStubText (walk E (ClassNode ds n as cs) w) =
              typeStubText (emitDecorators E ds w)
              @ lineText w (indentAmount w) (classHeader E n as)
              @ lineText w (indentAmount w + 1) ''...''
              @ lineText w (indentAmount w) [] @ lineText w (indentAmount w) []"
    by (rule class_all_filtered_text[OF assms(1)])
qed

theorem suite_never_empty_witness:
  "0 \<le> classNestCount newTypeStubWriter \<and> 0 \<le> functionNestCount newTypeStubWriter
   \<and> list_all (filteredOut exampleCollaborators)
        [FunctionNode [] False ''_helper'' [] None [], ImportNode [], OtherNode []]
   \<and> typeStubText (walk exampleCollaborators
         (ClassNode [] ''A'' []
            [FunctionNode [] False ''_helper'' [] None [], ImportNode [], OtherNode []])
         newTypeStubWriter)
       = ''class A:\<newline>    ...\<newline>\<newline>\<newline>''"
proof -
  have h: "0 \<le> classNestCount newTypeStubWriter" "0 \<le> functionNestCount newTypeStubWriter"
    by (simp_all add: newTypeStubWriter_def)
  have f: "list_all (filteredOut exampleCollaborators)
        [FunctionNode [] False ''_helper'' [] None [], ImportNode [], OtherNode []]"
    by (simp add: exampleCollaborators_def rejectedName_def)
  have n: "\<not> isProtectedName exampleCollaborators ''A''" "\<not> isPrivateName exampleCollaborators ''A''"
    by (simp_all add: exampleCollaborators_def)
  note t = suite_never_empty [OF h, of exampleCollaborators
      "[FunctionNode [] False ''_helper'' [] None [], ImportNode [], OtherNode []]" "''A''" "[]" "[]"]
  have "typeStubText (walk exampleCollaborators
         (ClassNode [] ''A'' []
            [FunctionNode [] False ''_helper'' [] None [], ImportNode [], OtherNode []])
         newTypeStubWriter)
       = typeStubText (emitDecorators exampleCollaborators [] newTypeStubWriter)
              @ lineText newTypeStubWriter (indentAmount newTypeStubWriter)
                  (classHeader exampleCollaborators ''A'' [])
              @ lineText newTypeStubWriter (indentAmount newTypeStubWriter + 1) ''...''
              @ lineText newTypeStubWriter (indentAmount newTypeStubWriter) []
              @ lineText newTypeStubWriter (indentAmount newTypeStubWriter) []"
    by (rule t[THEN conjunct2, THEN conjunct2, THEN mp, OF conjI[OF n(1) conjI[OF n(2) f]]])
  then show ?thesis
    using h f by (simp add: newTypeStubWriter_def lineText_def classHeader_def)
qed

subsection \<open>C2: rejected names are not declared\<close>

text \<open>
  C2. A class or a function whose name is private or protected contributes nothing to the
  output: walking such a node leaves the whole state, and so the buffer, as it was, which
  means that neither its \<open>class\<close> or \<open>def\<close> header nor anything below it is appended; and the walk
  of any tree gives the same result as the walk of the tree from which every such class and
  function has been deleted.
\<close>

theorem rejected_names_not_declared:
  assumes "isPrivateName E n \<or> isProtectedName E n"
  shows "walk E (ClassNode ds n as cs) w = w
         \<and> walk E (FunctionNode ds' a n ps r cs') w = w
         \<and> walk E (withoutRejected E node) w' = walk E node w'"
proof -
  from assms have "rejectedName E n" by (auto simp: rejectedName_def)
  then show ?thesis
    by (simp add: walk_rejected_class walk_rejected_function walk_withoutRejected(1)
        del: walk.simps)
qed

theorem rejected_names_not_declared_witness:
  "(isPrivateName exampleCollaborators ''__Impl'' \<or> isProtectedName exampleCollaborators ''__Impl'')
   \<and> typeStubText (walk exampleCollaborators
         (ClassNode [] ''__Impl'' [] [FunctionNode [] False ''run'' [] None []])
         newTypeStubWriter) = []
   \<and> typeStubText (walk exampleCollaborators
         (FunctionNode [] False ''__Impl'' [] None []) newTypeStubWriter) = []"
proof -
  have h: "isPrivateName exampleCollaborators ''__Impl'' \<or> isProtectedName exampleCollaborators ''__Impl''"
    by (simp add: exampleCollaborators_def)
  show ?thesis
    using h rejected_names_not_declared [OF h, of "[]" "[]"
        "[FunctionNode [] False ''run'' [] None []]" newTypeStubWriter "[]" False "[]" None "[]"]
    by (simp add: newTypeStubWriter_def del: walk.simps)
qed

subsection \<open>C3: the body of a rejected class\<close>

text \<open>
  C3, as the code has it. For a class whose name is private or protected \<open>visitClass\<close> changes
  nothing, does not call \<open>walkChildren\<close> and returns false, so the walker does not descend
  either: the body of a rejected class is not walked and none of its members is rendered. The
  walk goes on with the siblings of the class.
\<close>

theorem rejected_class_body_not_walked:
  assumes "isPrivateName E n \<or> isProtectedName E n"
  shows "visitClass E walkChildren ds n as w = (False, w)
         \<and> walk E (ClassNode ds n as cs) w = w
         \<and> walkMultiple E (ClassNode ds n as cs # siblings) w = walkMultiple E siblings w"
proof -
  from assms have v: "visitClass E walkChildren ds n as w = (False, w)" for walkChildren
    by (auto simp: visitClass_def)
  then show ?thesis by simp
qed

theorem rejected_class_body_not_walked_witness:
  "(isPrivateName exampleCollaborators ''_Hidden'' \<or> isProtectedName exampleCollaborators ''_Hidden'')
   \<and> typeStubText (walkMultiple exampleCollaborators
         [ClassNode [] ''_Hidden'' [] [FunctionNode [] False ''visible'' [] None []],
          ImportNode [\<lparr>importModule = \<lparr>leadingDots = 0, nameParts = [''os'']\<rparr>,
                       importAlias = None\<rparr>]]
         newTypeStubWriter) = ''import os\<newline>''"
proof -
  have h: "isPrivateName exampleCollaborators ''_Hidden'' \<or> isProtectedName exampleCollaborators ''_Hidden''"
    by (simp add: exampleCollaborators_def)
  show ?thesis
    using h rejected_class_body_not_walked [OF h, of id "[]" "[]" newTypeStubWriter
        "[FunctionNode [] False ''visible'' [] None []]"
        "[ImportNode [\<lparr>importModule = \<lparr>leadingDots = 0, nameParts = [''os'']\<rparr>,
                       importAlias = None\<rparr>]]"]
    by (simp add: writer_defs del: walk.simps(2))
qed

text \<open>
  The statement of C3 as it was made, that the body of a rejected class is still walked and
  its children filtered one by one, fails: a public method inside a protected class would be
  rendered by a walk of the body (with or without the class nesting counted), and the walk of
  the class renders nothing.
\<close>

theorem rejected_class_body_counterexample:
  "typeStubText (walk exampleCollaborators
      (ClassNode [] ''_Hidden'' [] [FunctionNode [] False ''visible'' [] None []])
      newTypeStubWriter) = []
   \<and> typeStubText (walkMultiple exampleCollaborators
      [FunctionNode [] False ''visible'' [] None []] newTypeStubWriter)
     = ''def visible():\<newline>    ...\<newline>\<newline>''
   \<and> typeStubText (classSuiteCallback (walkMultiple exampleCollaborators
      [FunctionNode [] False ''visible'' [] None []]) newTypeStubWriter)
     = ''def visible():\<newline>    ...\<newline>\<newline>''"
  by (simp add: writer_defs)

subsection \<open>C4: the suite flag is scoped per suite\<close>

text \<open>
  C4. A call of \<open>_emitSuite\<close> leaves \<open>_emittedSuite\<close> as it was at the moment of the call,
  whatever the callback does: the flag is saved before the body of the nested suite runs and
  restored after it. So neither an empty nor a non-empty nested suite changes what the enclosing
  suite knows about itself.
\<close>

theorem emitSuite_keeps_emittedSuite:
  "emittedSuite (emitSuite callback w) = emittedSuite w"
  by (simp add: emitSuite_def increaseIndent_def Let_def)

subsection \<open>C5: functions inside functions\<close>

text \<open>
  C5. A function node that is visited while \<open>_functionNestCount\<close> is not zero leaves the whole
  state as it was, whatever its name: no header is appended for it and its body is not walked.
  Hence the walk of a function node gives the same result as the walk of the same node with
  every function deleted from its body at every depth: functions nested once, twice or deeper
  are never rendered.
\<close>

theorem nested_functions_erased:
  assumes "functionNestCount w \<noteq> 0"
  shows "walk E (FunctionNode ds a n ps r cs) w = w
         \<and> walk E (FunctionNode ds' a' n' ps' r' (withoutFunctionsList cs')) w'
             = walk E (FunctionNode ds' a' n' ps' r' cs') w'"
  using assms
  by (simp add: walk_nested_function walk_function_withoutFunctions del: walk.simps)

theorem nested_functions_erased_witness:
  "functionNestCount (newTypeStubWriter\<lparr>functionNestCount := 1\<rparr>) \<noteq> 0
   \<and> walk exampleCollaborators (FunctionNode [] False ''inner'' [] None [])
        (newTypeStubWriter\<lparr>functionNestCount := 1\<rparr>)
      = newTypeStubWriter\<lparr>functionNestCount := 1\<rparr>
   \<and> typeStubText (walk exampleCollaborators
        (FunctionNode [] False ''outer'' [] None
           [FunctionNode [] False ''inner'' [] None
              [FunctionNode [] False ''innermost'' [] None []]])
        newTypeStubWriter)
      = ''def outer():\<newline>    ...\<newline>\<newline>''"
proof -
  have h: "functionNestCount (newTypeStubWriter\<lparr>functionNestCount := 1\<rparr>) \<noteq> 0"
    by simp
  note t = nested_functions_erased [OF h, of exampleCollaborators "[]" False "''inner''" "[]" None
        "[]" "[]" False "''outer''" "[]" None
        "[FunctionNode [] False ''inner'' [] None
            [FunctionNode [] False ''innermost'' [] None []]]" newTypeStubWriter]
  have e: "withoutFunctionsList [FunctionNode [] False ''inner'' [] None
            [FunctionNode [] False ''innermost'' [] None []]] = ([] :: string ParseNode list)"
    by simp
  have "typeStubText (walk exampleCollaborators
        (FunctionNode [] False ''outer'' [] None ([] :: string ParseNode list)) newTypeStubWriter)
      = ''def outer():\<newline>    ...\<newline>\<newline>''"
    by (simp add: writer_defs)
  then have "typeStubText (walk exampleCollaborators
        (FunctionNode [] False ''outer'' [] None
           [FunctionNode [] False ''inner'' [] None
              [FunctionNode [] False ''innermost'' [] None []]])
        newTypeStubWriter)
      = ''def outer():\<newline>    ...\<newline>\<newline>''"
    using t[THEN conjunct2] unfolding e by (simp only:)
  with h t[THEN conjunct1] show ?thesis by (intro conjI)
qed

subsection \<open>C6: arguments in a class header\<close>

text \<open>
  C6. The header of a class renders its arguments with an arrow function of its own, which
  writes the keyword prefix and the value but never looks at the argument category, whereas
  \<open>_printArgument\<close>, used for the arguments of decorators, writes the unpack sigil first. The
  class \<open>class A(*bases, **kw)\<close> gets the header \<open>class A(bases, kw):\<close>.
\<close>

theorem class_header_drops_unpack_sigil:
  "typeStubText (walk exampleCollaborators
      (ClassNode [] ''A''
         [\<lparr>argumentCategory = UnpackedList, argName = None, valueExpression = ''bases''\<rparr>,
          \<lparr>argumentCategory = UnpackedDictionary, argName = None, valueExpression = ''kw''\<rparr>] [])
      newTypeStubWriter)
     = ''class A(bases, kw):\<newline>    ...\<newline>\<newline>\<newline>''
   \<and> printArgument exampleCollaborators
        \<lparr>argumentCategory = UnpackedList, argName = None, valueExpression = ''bases''\<rparr> = ''*bases''
   \<and> printArgument exampleCollaborators
        \<lparr>argumentCategory = UnpackedDictionary, argName = None, valueExpression = ''kw''\<rparr> = ''**kw''"
  by (simp add: writer_defs)

subsection \<open>C7: parameter defaults\<close>

text \<open>
  C7. A parameter with a default value renders as its sigil and name followed by
  \<open>: <Type> = ...\<close> when it has a type annotation and by \<open>=...\<close> when it has none. The default
  expression is never printed: the rendering stays the same when the default is replaced by any
  other expression, and so does the header line of a function when every default among its
  parameters is replaced.
\<close>

theorem printParameter_default_redacted:
  assumes "defaultValue p = Some d"
  shows "printParameter E p =
           (if category p = VarArgList then ''*''
            else if category p = VarArgDictionary then ''**'' else [])
           @ (case paramName p of Some n \<Rightarrow> n | None \<Rightarrow> [])
           @ (case typeAnnotation p of
                Some t \<Rightarrow> '': '' @ printExpression E t @ '' = ...''
              | None \<Rightarrow> ''=...'')
         \<and> printParameter E (p\<lparr>defaultValue := Some d'\<rparr>) = printParameter E p
         \<and> functionHeader E isAsync functionName
              (map (\<lambda>q. q\<lparr>defaultValue := map_option (\<lambda>x. d') (defaultValue q)\<rparr>) ps) r
            = functionHeader E isAsync functionName ps r"
proof -
  have q: "printParameter E (q\<lparr>defaultValue := map_option (\<lambda>x. d') (defaultValue q)\<rparr>)
          = printParameter E q" for q :: "'a ParameterNode"
    by (simp add: printParameter_def Let_def split: option.splits)
  have m: "map (printParameter E)
               (map (\<lambda>q. q\<lparr>defaultValue := map_option (\<lambda>x. d') (defaultValue q)\<rparr>) ps)
             = map (printParameter E) ps"
    by (induction ps) (simp_all add: q)
  have hdr: "functionHeader E isAsync functionName
              (map (\<lambda>q. q\<lparr>defaultValue := map_option (\<lambda>x. d') (defaultValue q)\<rparr>) ps) r
            = functionHeader E isAsync functionName ps r"
    unfolding functionHeader_def m by (rule refl)
  have one: "printParameter E p =
           (if category p = VarArgList then ''*''
            else if category p = VarArgDictionary then ''**'' else [])
           @ (case paramName p of Some n \<Rightarrow> n | None \<Rightarrow> [])
           @ (case typeAnnotation p of
                Some t \<Rightarrow> '': '' @ printExpression E t @ '' = ...''
              | None \<Rightarrow> ''=...'')"
    using assms by (simp add: printParameter_def Let_def split: option.splits)
  have two: "printParameter E (p\<lparr>defaultValue := Some d'\<rparr>) = printParameter E p"
    using assms by (simp add: printParameter_def Let_def split: option.splits)
  from one two hdr show ?thesis by (intro conjI)
qed

theorem printParameter_default_redacted_witness:
  "printParameter exampleCollaborators
     \<lparr>category = SimpleParameter, paramName = Some ''x'', typeAnnotation = Some ''int'',
      defaultValue = Some ''3''\<rparr> = ''x: int = ...''
   \<and> printParameter exampleCollaborators
     \<lparr>category = SimpleParameter, paramName = Some ''y'', typeAnnotation = None,
      defaultValue = Some ''compute()''\<rparr> = ''y=...''"
  using printParameter_default_redacted [of
      "\<lparr>category = SimpleParameter, paramName = Some ''x'', typeAnnotation = Some ''int'',
        defaultValue = Some ''3''\<rparr>" "''3''" exampleCollaborators]
    printParameter_default_redacted [of
      "\<lparr>category = SimpleParameter, paramName = Some ''y'', typeAnnotation = None,
        defaultValue = Some ''compute()''\<rparr>" "''compute()''" exampleCollaborators]
  by (simp add: exampleCollaborators_def)

subsection \<open>C8: blank lines after a suite\<close>

text \<open>
  C8. When \<open>_emitSuite\<close> has returned, \<open>visitClass\<close> appends exactly two lines with empty content
  and changes nothing else; \<open>visitFunction\<close> (for a function that is rendered) appends exactly
  one. Such a line is what \<open>_emitLine\<close> makes of the empty string: the indentation of the
  declaration followed by the line end, so at module level it is the line end alone.
\<close>

theorem blank_lines_after_suites:
  assumes "\<not> isProtectedName E n" and "\<not> isPrivateName E n"
  shows "(let s = emitSuite (classSuiteCallback (walkMultiple E cs))
                    (emitLine (classHeader E n as)
                       (emitDecorators E ds (w\<lparr>emittedSuite := True\<rparr>)));
              blank = concat (replicate (nat (indentAmount w)) (tab w)) @ lineEnd w
          in walk E (ClassNode ds n as cs) w
               = s\<lparr>typeStubText := typeStubText s @ blank @ blank\<rparr>)
         \<and> (let s = emitSuite (functionSuiteCallback (walkMultiple E cs'))
                    (emitLine (functionHeader E a n ps r)
                       (emitDecorators E ds' (w\<lparr>emittedSuite := True\<rparr>)));
              blank = concat (replicate (nat (indentAmount w)) (tab w)) @ lineEnd w
          in functionNestCount w = 0 \<longrightarrow>
               walk E (FunctionNode ds' a n ps r cs') w
                 = s\<lparr>typeStubText := typeStubText s @ blank\<rparr>)"
proof -
  define h where "h = emitLine (classHeader E n as) (emitDecorators E ds (w\<lparr>emittedSuite := True\<rparr>))"
  define s where "s = emitSuite (classSuiteCallback (walkMultiple E cs)) h"
  define h' where "h' = emitLine (functionHeader E a n ps r)
                       (emitDecorators E ds' (w\<lparr>emittedSuite := True\<rparr>))"
  define s' where "s' = emitSuite (functionSuiteCallback (walkMultiple E cs')) h'"
  define blank where "blank = concat (replicate (nat (indentAmount w)) (tab w)) @ lineEnd w"
  have fh: "sameFrame w h" "sameFrame w h'"
    by (simp_all add: h_def h'_def sameFrame_def)
  have fs: "sameFrame w s"
    using fh(1) classSuite_sameFrame[of h E cs] by (simp add: s_def sameFrame_def)
  have fs': "sameFrame w s'"
    using fh(2) functionSuite_sameFrame[of h' E cs'] by (simp add: s'_def sameFrame_def)
  have b1: "emitLine [] s = s\<lparr>typeStubText := typeStubText s @ blank\<rparr>"
    unfolding blank_def by (rule emitLine_blank[OF fs])
  have fs1: "sameFrame w (s\<lparr>typeStubText := typeStubText s @ blank\<rparr>)"
    using fs by (simp add: sameFrame_def)
  have b2: "emitLine [] (emitLine [] s) = s\<lparr>typeStubText := typeStubText s @ blank @ blank\<rparr>"
    unfolding b1 using emitLine_blank[OF fs1] by (simp add: blank_def)
  have b': "emitLine [] s' = s'\<lparr>typeStubText := typeStubText s' @ blank\<rparr>"
    unfolding blank_def by (rule emitLine_blank[OF fs'])
  have c: "walk E (ClassNode ds n as cs) w = emitLine [] (emitLine [] s)"
    using assms by (simp add: visitClass_def Let_def s_def h_def)
  have f: "walk E (FunctionNode ds' a n ps r cs') w = emitLine [] s'" if "functionNestCount w = 0"
    using assms that by (simp add: visitFunction_def Let_def s'_def h'_def)
  show ?thesis
    using c f b2 b' unfolding Let_def s_def h_def s'_def h'_def blank_def by simp
qed

theorem blank_lines_after_suites_witness:
  "\<not> isProtectedName exampleCollaborators ''A'' \<and> \<not> isPrivateName exampleCollaborators ''A''
   \<and> functionNestCount newTypeStubWriter = 0
   \<and> typeStubText (walk exampleCollaborators (ClassNode [] ''A'' [] []) newTypeStubWriter)
       = ''class A:\<newline>    ...\<newline>'' @ ''\<newline>'' @ ''\<newline>''
   \<and> typeStubText (walk exampleCollaborators (FunctionNode [] False ''A'' [] None [])
         newTypeStubWriter)
       = ''def A():\<newline>    ...\<newline>'' @ ''\<newline>''"
proof -
  have h: "\<not> isProtectedName exampleCollaborators ''A''" "\<not> isPrivateName exampleCollaborators ''A''"
    by (simp_all add: exampleCollaborators_def)
  have z: "functionNestCount newTypeStubWriter = 0"
    by (simp add: newTypeStubWriter_def)
  note t = blank_lines_after_suites [OF h, of "[]" "[]" "[]" newTypeStubWriter "[]" False "[]" None "[]"]
  have s1: "typeStubText (emitSuite (classSuiteCallback (walkMultiple exampleCollaborators []))
                    (emitLine (classHeader exampleCollaborators ''A'' [])
                       (emitDecorators exampleCollaborators [] (newTypeStubWriter\<lparr>emittedSuite := True\<rparr>))))
            = ''class A:\<newline>    ...\<newline>''"
    by (simp add: writer_defs)
  have s2: "typeStubText (emitSuite (functionSuiteCallback (walkMultiple exampleCollaborators []))
                    (emitLine (functionHeader exampleCollaborators False ''A'' [] None)
                       (emitDecorators exampleCollaborators [] (newTypeStubWriter\<lparr>emittedSuite := True\<rparr>))))
            = ''def A():\<newline>    ...\<newline>''"
    by (simp add: writer_defs)
  have i: "concat (replicate (nat (indentAmount newTypeStubWriter)) (tab newTypeStubWriter))
             @ lineEnd newTypeStubWriter = ''\<newline>''"
    by (simp add: newTypeStubWriter_def)
  have g: "typeStubText (S\<lparr>typeStubText := x\<rparr>) = x" for S x
    by simp
  note c0 = t[THEN conjunct1, unfolded Let_def i]
  have c: "typeStubText (walk exampleCollaborators (ClassNode [] ''A'' [] []) newTypeStubWriter)
       = ''class A:\<newline>    ...\<newline>'' @ ''\<newline>'' @ ''\<newline>''"
    by (subst c0, subst g, subst s1, rule refl)
  note f0 = t[THEN conjunct2, unfolded Let_def i, THEN mp, OF z]
  have f: "typeStubText (walk exampleCollaborators (FunctionNode [] False ''A'' [] None [])
         newTypeStubWriter)
       = ''def A():\<newline>    ...\<newline>'' @ ''\<newline>''"
    by (subst f0, subst g, subst s2, rule refl)
  from h z c f show ?thesis by (intro conjI)
qed

subsection \<open>C9: running the writer twice\<close>




subsection \<open>C10: wildcard imports\<close>

text \<open>
  C10. A from-import with the wildcard flag, met at module scope (both nesting counters are
  zero), appends exactly one line to the buffer, \<open>from <module name> import *\<close> at the current
  indentation, and changes nothing else of the state; the list of imported names of the node is
  not looked at.
\<close>

theorem wildcard_importFrom_one_line:
  assumes "classNestCount w = 0" and "functionNestCount w = 0"
  shows "walk E (ImportFromNode m True imps) w =
           w\<lparr>typeStubText := typeStubText w
               @ concat (replicate (nat (indentAmount w)) (tab w))
               @ ''from '' @ printModuleName m @ '' import *'' @ lineEnd w\<rparr>"
  using assms by (simp add: visitImportFrom_def Let_def emitLine_def appendTabs_eq)

theorem wildcard_importFrom_one_line_witness:
  "classNestCount newTypeStubWriter = 0 \<and> functionNestCount newTypeStubWriter = 0
   \<and> typeStubText (walk exampleCollaborators
        (ImportFromNode \<lparr>leadingDots = 1, nameParts = [''a'', ''b'']\<rparr> True
           [\<lparr>importFromName = ''x'', importFromAlias = None\<rparr>]) newTypeStubWriter)
      = ''from .a.b import *\<newline>''"
proof -
  have h: "classNestCount newTypeStubWriter = 0" "functionNestCount newTypeStubWriter = 0"
    by (simp_all add: newTypeStubWriter_def)
  show ?thesis
    using h wildcard_importFrom_one_line [OF h, of exampleCollaborators
        "\<lparr>leadingDots = 1, nameParts = [''a'', ''b'']\<rparr>"
        "[\<lparr>importFromName = ''x'', importFromAlias = None\<rparr>]"]
    by (simp add: newTypeStubWriter_def printModuleName_def)
qed

end
